theory Spec2Isabelle
  imports Main "HOL-Library.Sublist" "HOL-Library.AList"
begin

section \<open>Strings\<close>

text \<open>
  A JavaScript string is a sequence of UTF-16 code units. The model uses \<open>string\<close>,
  whose characters have 256 values: a \<open>char\<close> stands for the code unit of the same
  number, so the strings of the model are the JavaScript strings whose code units are
  all below 256 (ASCII and Latin-1). The built-ins \<open>trim\<close> and \<open>toLowerCase\<close> are
  modelled exactly on that range.
\<close>

definition code_unit :: "char \<Rightarrow> nat" where
  "code_unit c = of_char c"

text \<open>White space and line terminators of ECMAScript below 256:
  TAB, LF, VT, FF, CR, SPACE and NO-BREAK SPACE.\<close>

definition isWhiteSpace :: "char \<Rightarrow> bool" where
  "isWhiteSpace c = (code_unit c \<in> {9, 10, 11, 12, 13, 32, 160})"

definition trim :: "string \<Rightarrow> string" where
  "trim s = rev (dropWhile isWhiteSpace (rev (dropWhile isWhiteSpace s)))"

text \<open>Unicode lower-casing below 256: \<open>A\<close>..\<open>Z\<close> and the capital letters
  U+00C0..U+00DE (U+00D7, the multiplication sign, apart) move up by 32.\<close>

definition toLowerCaseChar :: "char \<Rightarrow> char" where
  "toLowerCaseChar c =
     (let n = code_unit c
      in if (65 \<le> n \<and> n \<le> 90) \<or> (192 \<le> n \<and> n \<le> 222 \<and> n \<noteq> 215)
         then char_of (n + 32) else c)"

definition toLowerCase :: "string \<Rightarrow> string" where
  "toLowerCase s = map toLowerCaseChar s"

section \<open>normalizePackageName\<close>

text \<open>The character class \<open>[a-z0-9-_]\<close>: lower-case letters, digits, hyphen, underscore.\<close>

definition packageChar :: "char \<Rightarrow> bool" where
  "packageChar c =
     (let n = code_unit c
      in (97 \<le> n \<and> n \<le> 122) \<or> (48 \<le> n \<and> n \<le> 57) \<or> c = CHR ''-'' \<or> c = CHR ''_'')"

text \<open>\<open>.replace(/[^a-z0-9-_]/g, "-")\<close>: each character outside the class becomes a hyphen.\<close>

definition replaceInvalid :: "string \<Rightarrow> string" where
  "replaceInvalid s = map (\<lambda>c. if packageChar c then c else CHR ''-'') s"

text \<open>\<open>.replace(/-+/g, "-")\<close>: a hyphen followed by a hyphen is dropped, so each
  maximal run of hyphens leaves one.\<close>

fun collapseHyphens :: "string \<Rightarrow> string" where
  "collapseHyphens [] = []"
| "collapseHyphens [c] = [c]"
| "collapseHyphens (c # d # s) =
     (if c = CHR ''-'' \<and> d = CHR ''-'' then collapseHyphens (d # s)
      else c # collapseHyphens (d # s))"

text \<open>\<open>.replace(/^-|-$/g, "")\<close>: the alternative \<open>^-\<close> matches one hyphen at index 0,
  the alternative \<open>-$\<close> one hyphen at the last index; a match is consumed, so the string
  \<open>"-"\<close> loses its only character once.\<close>

definition stripEdgeHyphens :: "string \<Rightarrow> string" where
  "stripEdgeHyphens s =
     (let s1 = (case s of [] \<Rightarrow> [] | c # r \<Rightarrow> if c = CHR ''-'' then r else s)
      in if s1 \<noteq> [] \<and> last s1 = CHR ''-'' then butlast s1 else s1)"

definition normalizePackageName :: "string \<Rightarrow> string" where
  "normalizePackageName projectName =
     (let r = stripEdgeHyphens (collapseHyphens (replaceInvalid (toLowerCase (trim projectName))))
      in if r = [] then ''bun-app'' else r)"

text \<open>The regular expression \<open>^[a-z0-9-_]+$\<close>.\<close>

definition matchesPackageName :: "string \<Rightarrow> bool" where
  "matchesPackageName s = (s \<noteq> [] \<and> list_all packageChar s)"

subsection \<open>The normalization rule in the specification's words\<close>

text \<open>Every maximal run of characters outside the class becomes a single hyphen.\<close>

function spec_replaceRuns :: "string \<Rightarrow> string" where
  "spec_replaceRuns [] = []"
| "spec_replaceRuns (c # s) =
     (if packageChar c then c # spec_replaceRuns s
      else CHR ''-'' # spec_replaceRuns (dropWhile (\<lambda>d. \<not> packageChar d) s))"
  by pat_completeness auto
termination
  by (relation "measure length") (auto simp: less_Suc_eq_le length_dropWhile_le)

text \<open>Repeated hyphens collapse to one.\<close>

function spec_collapseRepeated :: "string \<Rightarrow> string" where
  "spec_collapseRepeated [] = []"
| "spec_collapseRepeated (c # s) =
     (if c = CHR ''-'' then c # spec_collapseRepeated (dropWhile (\<lambda>d. d = CHR ''-'') s)
      else c # spec_collapseRepeated s)"
  by pat_completeness auto
termination
  by (relation "measure length") (auto simp: less_Suc_eq_le length_dropWhile_le)

text \<open>All leading and all trailing hyphens are stripped.\<close>

definition spec_stripHyphens :: "string \<Rightarrow> string" where
  "spec_stripHyphens s =
     rev (dropWhile (\<lambda>d. d = CHR ''-'') (rev (dropWhile (\<lambda>d. d = CHR ''-'') s)))"

definition spec_normalizePackageName :: "string \<Rightarrow> string" where
  "spec_normalizePackageName projectName =
     (let r = spec_stripHyphens (spec_collapseRepeated (spec_replaceRuns (toLowerCase projectName)))
      in if r = [] then ''bun-app'' else r)"


section \<open>Paths\<close>

text \<open>
  The program runs on a POSIX system. A resolved path (the result of \<open>path.resolve\<close>) is
  absolute and normalized; the model keeps it as the list of its components, the root
  being the empty list. \<open>path_string\<close> is the string the program sees.
\<close>

type_synonym path = "string list"

definition path_string :: "path \<Rightarrow> string" where
  "path_string p = (if p = [] then ''/'' else concat (map (\<lambda>c. CHR ''/'' # c) p))"

text \<open>The pieces of a string between its slashes.\<close>

fun splitSlash :: "string \<Rightarrow> string list" where
  "splitSlash [] = [[]]"
| "splitSlash (c # s) =
     (case splitSlash s of
        [] \<Rightarrow> [[c]]
      | seg # segs \<Rightarrow> if c = CHR ''/'' then [] # seg # segs else (c # seg) # segs)"

text \<open>One step of normalization: empty pieces and \<open>.\<close> are dropped, \<open>..\<close> removes the
  last component (and stays at the root).\<close>

definition resolveStep :: "path \<Rightarrow> string \<Rightarrow> path" where
  "resolveStep acc seg =
     (if seg = [] \<or> seg = ''.'' then acc
      else if seg = ''..'' then butlast acc
      else acc @ [seg])"

text \<open>\<open>resolve(base, s)\<close> for a resolved \<open>base\<close>: an absolute \<open>s\<close> starts again from the
  root. \<open>resolve(s)\<close> is \<open>resolve(process.cwd(), s)\<close>.\<close>

definition resolve :: "path \<Rightarrow> string \<Rightarrow> path" where
  "resolve base s =
     foldl resolveStep (if s \<noteq> [] \<and> hd s = CHR ''/'' then [] else base) (splitSlash s)"

text \<open>\<open>dirname\<close> and \<open>basename\<close> of a resolved path; both give the root for the root
  (\<open>basename("/")\<close> is the empty string).\<close>

definition dirname :: "path \<Rightarrow> path" where
  "dirname p = butlast p"

definition basename :: "path \<Rightarrow> string" where
  "basename p = (if p = [] then [] else last p)"

text \<open>\<open>relative(from, to)\<close> of two resolved paths: the common prefix is dropped, each
  remaining component of \<open>from\<close> becomes \<open>..\<close>.\<close>

fun relativeSegs :: "path \<Rightarrow> path \<Rightarrow> string list" where
  "relativeSegs (a # from) (b # to) =
     (if a = b then relativeSegs from to
      else replicate (length (a # from)) ''..'' @ (b # to))"
| "relativeSegs from to = replicate (length from) ''..'' @ to"

fun joinSlash :: "string list \<Rightarrow> string" where
  "joinSlash [] = []"
| "joinSlash [c] = c"
| "joinSlash (c # d # cs) = c @ CHR ''/'' # joinSlash (d # cs)"

definition relative :: "path \<Rightarrow> path \<Rightarrow> string" where
  "relative from to = joinSlash (relativeSegs from to)"

text \<open>\<open>extname\<close>: from the last dot of the last component to its end; empty when there
  is no dot, when the only dot is the first character, and for the component \<open>..\<close>.\<close>

definition extnameOf :: "string \<Rightarrow> string" where
  "extnameOf b =
     (let ext = rev (takeWhile (\<lambda>c. c \<noteq> CHR ''.'') (rev b));
          pre = rev (tl (dropWhile (\<lambda>c. c \<noteq> CHR ''.'') (rev b)))
      in if CHR ''.'' \<notin> set b \<or> pre = [] \<or> b = ''..'' then [] else CHR ''.'' # ext)"

definition extname :: "path \<Rightarrow> string" where
  "extname p = (if p = [] then [] else extnameOf (last p))"

definition startsWith :: "string \<Rightarrow> string \<Rightarrow> bool" where
  "startsWith p s = prefix p s"

definition endsWith :: "string \<Rightarrow> string \<Rightarrow> bool" where
  "endsWith p s = suffix p s"

section \<open>Errors\<close>

datatype fs_error = ENOENT | ENOTDIR | EEXIST | EISDIR | ENOSPC | EACCES

text \<open>A thrown value is a JavaScript \<open>Error\<close> with its message, or a system error with
  its \<open>code\<close>.\<close>

datatype error = Error string | SystemError fs_error

section \<open>The file system\<close>

text \<open>
  A directory is the list of its entries in listing order, under distinct names. There
  are no symbolic links and no permissions in the model.
\<close>

datatype node = File string | Dir "(string \<times> node) list"

fun lookup :: "node \<Rightarrow> path \<Rightarrow> fs_error + node" where
  "lookup n [] = Inr n"
| "lookup (File x) (c # p) = Inl ENOTDIR"
| "lookup (Dir es) (c # p) =
     (case map_of es c of None \<Rightarrow> Inl ENOENT | Some n \<Rightarrow> lookup n p)"

definition pathExists :: "node \<Rightarrow> path \<Rightarrow> bool" where
  "pathExists root p = (case lookup root p of Inl e \<Rightarrow> False | Inr n \<Rightarrow> True)"

text \<open>\<open>readdir(dir)\<close>: the names of the entries.\<close>

definition readdir :: "node \<Rightarrow> path \<Rightarrow> fs_error + string list" where
  "readdir root dir =
     (case lookup root dir of
        Inl e \<Rightarrow> Inl e
      | Inr (File x) \<Rightarrow> Inl ENOTDIR
      | Inr (Dir es) \<Rightarrow> Inr (map fst es))"

text \<open>\<open>Bun.file(path).text()\<close>.\<close>

definition readFile :: "node \<Rightarrow> path \<Rightarrow> fs_error + string" where
  "readFile root p =
     (case lookup root p of
        Inl e \<Rightarrow> Inl e
      | Inr (File x) \<Rightarrow> Inr x
      | Inr (Dir es) \<Rightarrow> Inl EISDIR)"

text \<open>Writing a file at a path whose parent directory exists: the file is created or
  replaced; a directory in its place is an error.\<close>

fun writeFile :: "path \<Rightarrow> string \<Rightarrow> node \<Rightarrow> fs_error + node" where
  "writeFile [] x (File y) = Inr (File x)"
| "writeFile [] x (Dir es) = Inl EISDIR"
| "writeFile (c # p) x (File y) = Inl ENOTDIR"
| "writeFile (c # p) x (Dir es) =
     (case map_of es c of
        None \<Rightarrow> (if p = [] then Inr (Dir (AList.update c (File x) es)) else Inl ENOENT)
      | Some n \<Rightarrow>
          (case writeFile p x n of
             Inl e \<Rightarrow> Inl e
           | Inr n' \<Rightarrow> Inr (Dir (AList.update c n' es))))"

text \<open>\<open>mkdir(dir, {recursive: true})\<close>: missing directories are created along the path;
  a file on the way is an error.\<close>

fun mkdirp :: "path \<Rightarrow> node \<Rightarrow> fs_error + node" where
  "mkdirp [] (Dir es) = Inr (Dir es)"
| "mkdirp [] (File x) = Inl EEXIST"
| "mkdirp (c # p) (File x) = Inl ENOTDIR"
| "mkdirp (c # p) (Dir es) =
     (case mkdirp p (case map_of es c of None \<Rightarrow> Dir [] | Some n \<Rightarrow> n) of
        Inl e \<Rightarrow> Inl e
      | Inr n' \<Rightarrow> Inr (Dir (AList.update c n' es)))"

text \<open>\<open>rm(path, {force: true, recursive: true})\<close>: the entry and everything below it is
  removed; a path that does not exist is not an error. No call of the program names the
  root.\<close>

fun rm :: "path \<Rightarrow> node \<Rightarrow> node" where
  "rm [] n = n"
| "rm (c # p) (File x) = File x"
| "rm [c] (Dir es) = Dir (AList.delete c es)"
| "rm (c # d # p) (Dir es) =
     (case map_of es c of
        None \<Rightarrow> Dir es
      | Some n \<Rightarrow> Dir (AList.update c (rm (d # p) n) es))"

text \<open>\<open>mkdtemp(prefix)\<close>: a new directory whose name is the prefix followed by six
  random characters, here \<open>rand\<close>. The prefix is given as a path: its last component is
  the start of the new name.\<close>

definition mkdtempName :: "path \<Rightarrow> string \<Rightarrow> path" where
  "mkdtempName pre rand = butlast pre @ [last pre @ rand]"

fun createDir :: "path \<Rightarrow> node \<Rightarrow> fs_error + node" where
  "createDir [] n = Inl EEXIST"
| "createDir (c # p) (File x) = Inl ENOTDIR"
| "createDir [c] (Dir es) =
     (case map_of es c of
        None \<Rightarrow> Inr (Dir (AList.update c (Dir []) es))
      | Some n \<Rightarrow> Inl EEXIST)"
| "createDir (c # d # p) (Dir es) =
     (case map_of es c of
        None \<Rightarrow> Inl ENOENT
      | Some n \<Rightarrow>
          (case createDir (d # p) n of
             Inl e \<Rightarrow> Inl e
           | Inr n' \<Rightarrow> Inr (Dir (AList.update c n' es))))"

definition mkdtemp :: "path \<Rightarrow> string \<Rightarrow> node \<Rightarrow> fs_error + (path \<times> node)" where
  "mkdtemp pre rand root =
     (case createDir (mkdtempName pre rand) root of
        Inl e \<Rightarrow> Inl e
      | Inr root' \<Rightarrow> Inr (mkdtempName pre rand, root'))"

text \<open>\<open>cp(src, dest, {force: true, recursive: true})\<close>: directories are merged, files
  overwrite files, a directory does not replace a file nor a file a directory. Entries
  are copied one after the other; at the first error the copy stops and what was copied
  stays.\<close>

fun copyNode :: "node \<Rightarrow> node option \<Rightarrow> fs_error option \<times> node"
  and copyEntries :: "(string \<times> node) list \<Rightarrow> (string \<times> node) list \<Rightarrow> fs_error option \<times> (string \<times> node) list"
where
  "copyNode (File x) None = (None, File x)"
| "copyNode (File x) (Some (File y)) = (None, File x)"
| "copyNode (File x) (Some (Dir ds)) = (Some EISDIR, Dir ds)"
| "copyNode (Dir es) (Some (File y)) = (Some ENOTDIR, File y)"
| "copyNode (Dir es) None = (case copyEntries es [] of (e, ds') \<Rightarrow> (e, Dir ds'))"
| "copyNode (Dir es) (Some (Dir ds)) = (case copyEntries es ds of (e, ds') \<Rightarrow> (e, Dir ds'))"
| "copyEntries [] ds = (None, ds)"
| "copyEntries ((name, n) # es) ds =
     (case copyNode n (map_of ds name) of
        (Some e, n') \<Rightarrow> (Some e, AList.update name n' ds)
      | (None, n') \<Rightarrow> copyEntries es (AList.update name n' ds))"

text \<open>Putting a node at a path whose parent directory exists.\<close>

fun putNode :: "path \<Rightarrow> node \<Rightarrow> node \<Rightarrow> fs_error + node" where
  "putNode [] n root = Inr n"
| "putNode (c # p) n (File x) = Inl ENOTDIR"
| "putNode [c] n (Dir es) = Inr (Dir (AList.update c n es))"
| "putNode (c # d # p) n (Dir es) =
     (case map_of es c of
        None \<Rightarrow> Inl ENOENT
      | Some m \<Rightarrow>
          (case putNode (d # p) n m of
             Inl e \<Rightarrow> Inl e
           | Inr m' \<Rightarrow> Inr (Dir (AList.update c m' es))))"

definition cp :: "path \<Rightarrow> path \<Rightarrow> node \<Rightarrow> fs_error option \<times> node" where
  "cp src dest root =
     (case lookup root src of
        Inl e \<Rightarrow> (Some e, root)
      | Inr n \<Rightarrow>
          (case mkdirp (dirname dest) root of
             Inl e \<Rightarrow> (Some e, root)
           | Inr root1 \<Rightarrow>
               (case copyNode n (case lookup root1 dest of Inl e \<Rightarrow> None | Inr d \<Rightarrow> Some d) of
                  (e, n') \<Rightarrow>
                    (case putNode dest n' root1 of
                       Inl e' \<Rightarrow> (Some e', root1)
                     | Inr root2 \<Rightarrow> (e, root2)))))"

text \<open>\<open>listFilesRecursively\<close>: depth first, in listing order.\<close>

fun listFiles :: "path \<Rightarrow> (string \<times> node) list \<Rightarrow> path list" where
  "listFiles dir [] = []"
| "listFiles dir ((name, File x) # es) = resolve dir name # listFiles dir es"
| "listFiles dir ((name, Dir sub) # es) = listFiles (resolve dir name) sub @ listFiles dir es"

definition listFilesRecursively :: "path \<Rightarrow> node \<Rightarrow> fs_error + path list" where
  "listFilesRecursively dir root =
     (case lookup root dir of
        Inl e \<Rightarrow> Inl e
      | Inr (File x) \<Rightarrow> Inl ENOTDIR
      | Inr (Dir es) \<Rightarrow> Inr (listFiles dir es))"

text \<open>\<open>isDirectoryEmpty\<close>: the error of \<open>readdir\<close> is caught; with the code \<open>ENOENT\<close> the
  answer is true, any other error is thrown again.\<close>

definition isDirectoryEmpty :: "path \<Rightarrow> node \<Rightarrow> error + bool" where
  "isDirectoryEmpty dir root =
     (case readdir root dir of
        Inr entries \<Rightarrow> Inr (length entries = 0)
      | Inl e \<Rightarrow> if e = ENOENT then Inr True else Inl (SystemError e))"


section \<open>Effects\<close>

text \<open>
  The state of a run is the file system and the trace of the effects the program has
  performed on it, in order. What the program cannot decide is a parameter: the working
  directory of the process, the random characters of \<open>mkdtemp\<close>, what a spawned
  process does (its result, or the error of the spawn itself, and what it leaves of the
  file system), and which writes the system refuses.
\<close>

datatype event =
    Mkdir path
  | Mkdtemp path
  | Spawn "string list" "string option"
  | Rm path
  | Cp path path
  | WriteFile path
  | Install string "int option"
  | ConsoleError string

record world =
  fs :: node
  trace :: "event list"

definition emit :: "event \<Rightarrow> world \<Rightarrow> world" where
  "emit e w = w\<lparr>trace := trace w @ [e]\<rparr>"

record env =
  cwd :: path
  tmpSuffix :: string
  spawn :: "string list \<Rightarrow> string option \<Rightarrow> node \<Rightarrow> (fs_error + int \<times> string) \<times> node"
  writeFault :: "path \<Rightarrow> fs_error option"

text \<open>The operator \<open>??\<close>.\<close>

fun orElse :: "'a option \<Rightarrow> 'a \<Rightarrow> 'a" where
  "orElse None d = d"
| "orElse (Some x) d = x"

text \<open>A number in a template literal: its decimal digits.\<close>

function showNat :: "nat \<Rightarrow> string" where
  "showNat n = (if n < 10 then [char_of (48 + n)] else showNat (n div 10) @ [char_of (48 + n mod 10)])"
  by pat_completeness auto
termination
  by (relation "measure id") auto

definition showInt :: "int \<Rightarrow> string" where
  "showInt i = (if i < 0 then CHR ''-'' # showNat (nat (- i)) else showNat (nat i))"

text \<open>\<open>runCommand\<close>: with \<open>quiet\<close> the standard error of the process is captured and
  trimmed, without it none is returned.\<close>

definition runCommand ::
  "env \<Rightarrow> string list \<Rightarrow> string option \<Rightarrow> bool option \<Rightarrow> world \<Rightarrow> (error + int \<times> string) \<times> world" where
  "runCommand e cmd cwdOpt quietOpt w =
     (let quiet = orElse quietOpt False;
          w1 = emit (Spawn cmd cwdOpt) w
      in case spawn e cmd cwdOpt (fs w) of
           (Inl err, root) \<Rightarrow> (Inl (SystemError err), w1\<lparr>fs := root\<rparr>)
         | (Inr (exitCode, stderr), root) \<Rightarrow>
             if \<not> quiet then (Inr (exitCode, []), w1\<lparr>fs := root\<rparr>)
             else (Inr (exitCode, trim stderr), w1\<lparr>fs := root\<rparr>))"

definition runBunInstall :: "env \<Rightarrow> string \<Rightarrow> world \<Rightarrow> (error + int) \<times> world" where
  "runBunInstall e targetDir w =
     (case runCommand e [''bun'', ''install''] (Some targetDir) (Some True) w of
        (Inl err, w1) \<Rightarrow> (Inl err, w1)
      | (Inr (exitCode, stderr), w1) \<Rightarrow>
          (Inr exitCode,
           if exitCode \<noteq> 0 \<and> length stderr > 0 then emit (ConsoleError stderr) w1 else w1))"

definition cloneTemplateRepo :: "env \<Rightarrow> string \<Rightarrow> path \<Rightarrow> world \<Rightarrow> (error + unit) \<times> world" where
  "cloneTemplateRepo e templateRepo stagingDir w =
     (case runCommand e
             [''git'', ''clone'', ''--depth'', ''1'', ''--quiet'', templateRepo, path_string stagingDir]
             None (Some True) w of
        (Inl err, w1) \<Rightarrow> (Inl err, w1)
      | (Inr (exitCode, stderr), w1) \<Rightarrow>
          if exitCode \<noteq> 0
          then (Inl (Error (''git clone failed with exit code '' @ showInt exitCode @ ''.''
                        @ (if length stderr > 0 then CHR '' '' # stderr else []))), w1)
          else (Inr (), w1))"

section \<open>Token substitution\<close>

text \<open>
  \<open>replaceAll(searchString, replaceValue)\<close> with two strings. The replacement of each
  match is computed from \<open>replaceValue\<close> as a template (GetSubstitution of ECMAScript):
  \<open>$$\<close> stands for a dollar sign, \<open>$&\<close> for the match, \<open>$`\<close> for the text before
  the match and \<open>$'\<close> for the text after it; there are no captures, so any other text
  stands for itself.
\<close>

fun getSubstitution :: "string \<Rightarrow> string \<Rightarrow> string \<Rightarrow> string \<Rightarrow> string" where
  "getSubstitution matched preceding following [] = []"
| "getSubstitution matched preceding following [c] = [c]"
| "getSubstitution matched preceding following (c # d # t) =
     (if c = CHR ''$'' \<and> d = CHR ''$'' then CHR ''$'' # getSubstitution matched preceding following t
      else if c = CHR ''$'' \<and> d = CHR ''&'' then matched @ getSubstitution matched preceding following t
      else if c = CHR ''$'' \<and> d = CHR 0x60 then preceding @ getSubstitution matched preceding following t
      else if c = CHR ''$'' \<and> d = CHR 0x27 then following @ getSubstitution matched preceding following t
      else c # getSubstitution matched preceding following (d # t))"

text \<open>The matches are found from left to right and do not overlap. \<open>preceding\<close> is the
  text already passed. The program searches for its two tokens only; for the empty search
  string, which it never uses, the model leaves the text as it is.\<close>

function replaceAllFrom :: "string \<Rightarrow> string \<Rightarrow> string \<Rightarrow> string \<Rightarrow> string" where
  "replaceAllFrom pat tmpl preceding [] = []"
| "replaceAllFrom pat tmpl preceding (c # s) =
     (if pat \<noteq> [] \<and> prefix pat (c # s)
      then getSubstitution pat preceding (drop (length pat) (c # s)) tmpl
           @ replaceAllFrom pat tmpl (preceding @ pat) (drop (length pat) (c # s))
      else c # replaceAllFrom pat tmpl (preceding @ [c]) s)"
  by pat_completeness auto
termination
  by (relation "measure (\<lambda>(pat, tmpl, preceding, s). length s)") auto

definition replaceAll :: "string \<Rightarrow> string \<Rightarrow> string \<Rightarrow> string" where
  "replaceAll pat tmpl s = replaceAllFrom pat tmpl [] s"

definition textExtensions :: "string list" where
  "textExtensions =
     [''.json'', ''.ts'', ''.tsx'', ''.js'', ''.jsx'', ''.md'', ''.txt'', ''.toml'', ''.yaml'', ''.yml'']"

text \<open>\<open>Bun.write(filePath, next)\<close>.\<close>

definition bunWrite :: "env \<Rightarrow> path \<Rightarrow> string \<Rightarrow> world \<Rightarrow> (error + unit) \<times> world" where
  "bunWrite e filePath x w =
     (case writeFault e filePath of
        Some err \<Rightarrow> (Inl (SystemError err), w)
      | None \<Rightarrow>
          (case writeFile filePath x (fs w) of
             Inl err \<Rightarrow> (Inl (SystemError err), w)
           | Inr root \<Rightarrow> (Inr (), emit (WriteFile filePath) (w\<lparr>fs := root\<rparr>))))"

text \<open>The function mapped over the file paths in \<open>applyTemplateTokens\<close>.\<close>

definition rewriteTokens :: "env \<Rightarrow> string \<Rightarrow> string \<Rightarrow> path \<Rightarrow> world \<Rightarrow> (error + unit) \<times> world" where
  "rewriteTokens e projectName packageName filePath w =
     (let ext = extname filePath
      in if ext \<notin> set textExtensions \<and> \<not> endsWith ''.gitignore'' (path_string filePath)
         then (Inr (), w)
         else
           (case readFile (fs w) filePath of
              Inl err \<Rightarrow> (Inl (SystemError err), w)
            | Inr original \<Rightarrow>
                (let next = replaceAll ''__PACKAGE_NAME__'' packageName
                              (replaceAll ''__PROJECT_NAME__'' projectName original)
                 in if next \<noteq> original then bunWrite e filePath next w else (Inr (), w))))"

text \<open>\<open>Promise.all\<close> over the files: every file is processed, nothing cancels the others
  when one fails, and the first failure is the error. The files are taken one after the
  other, in the order of the list.\<close>

fun rewriteEach :: "env \<Rightarrow> string \<Rightarrow> string \<Rightarrow> path list \<Rightarrow> world \<Rightarrow> error option \<times> world" where
  "rewriteEach e projectName packageName [] w = (None, w)"
| "rewriteEach e projectName packageName (filePath # rest) w =
     (case rewriteTokens e projectName packageName filePath w of
        (r, w1) \<Rightarrow>
          (case rewriteEach e projectName packageName rest w1 of
             (r', w2) \<Rightarrow> ((case r of Inl err \<Rightarrow> Some err | Inr u \<Rightarrow> r'), w2)))"

definition applyTemplateTokens :: "env \<Rightarrow> path list \<Rightarrow> string \<Rightarrow> world \<Rightarrow> (error + unit) \<times> world" where
  "applyTemplateTokens e filePaths projectName w =
     (let packageName = normalizePackageName projectName
      in case rewriteEach e projectName packageName filePaths w of
           (Some err, w1) \<Rightarrow> (Inl err, w1)
         | (None, w1) \<Rightarrow> (Inr (), w1))"


section \<open>scaffoldProject\<close>

text \<open>An injected \<open>runInstall\<close> is a function of the target directory that returns an
  exit code, or throws, and may change the file system.\<close>

record ScaffoldOptions =
  opt_force :: "bool option"
  opt_install :: "bool option"
  opt_projectName :: string
  opt_runInstall :: "(string \<Rightarrow> node \<Rightarrow> (error + int) \<times> node) option"
  opt_templateRepo :: "string option"
  opt_targetDir :: string

record ScaffoldResult =
  createdFiles :: "string list"
  installedDependencies :: bool
  res_projectName :: string
  res_targetDir :: string

definition DEFAULT_TEMPLATE_REPO :: string where
  "DEFAULT_TEMPLATE_REPO = ''https://github.com/rayhanadev/fresh''"

definition injected ::
  "(string \<Rightarrow> node \<Rightarrow> (error + int) \<times> node) \<Rightarrow> string \<Rightarrow> world \<Rightarrow> (error + int) \<times> world" where
  "injected f dir w = (case f dir (fs w) of (r, root) \<Rightarrow> (r, w\<lparr>fs := root\<rparr>))"

text \<open>The body of the \<open>try\<close> block.\<close>

definition scaffoldTry ::
  "env \<Rightarrow> string \<Rightarrow> path \<Rightarrow> string \<Rightarrow> bool \<Rightarrow> (string \<Rightarrow> world \<Rightarrow> (error + int) \<times> world)
     \<Rightarrow> path \<Rightarrow> world \<Rightarrow> (error + ScaffoldResult) \<times> world" where
  "scaffoldTry e templateRepo targetDir projectName install runInstall stagingDir w =
     (case cloneTemplateRepo e templateRepo stagingDir w of
        (Inl err, w1) \<Rightarrow> (Inl err, w1)
      | (Inr u, w1) \<Rightarrow>
          (let w2 = emit (Rm (resolve stagingDir ''.git'')) (w1\<lparr>fs := rm (resolve stagingDir ''.git'') (fs w1)\<rparr>)
           in case listFilesRecursively stagingDir (fs w2) of
                Inl err \<Rightarrow> (Inl (SystemError err), w2)
              | Inr templateFiles \<Rightarrow>
                  (let createdFiles =
                         map (\<lambda>filePath. resolve targetDir (relative stagingDir filePath)) templateFiles
                   in case cp stagingDir targetDir (fs w2) of
                        (Some err, root) \<Rightarrow> (Inl (SystemError err), emit (Cp stagingDir targetDir) (w2\<lparr>fs := root\<rparr>))
                      | (None, root) \<Rightarrow>
                          (case applyTemplateTokens e createdFiles projectName
                                  (emit (Cp stagingDir targetDir) (w2\<lparr>fs := root\<rparr>)) of
                             (Inl err, w4) \<Rightarrow> (Inl err, w4)
                           | (Inr u', w4) \<Rightarrow>
                               if install then
                                 (case runInstall (path_string targetDir) w4 of
                                    (Inl err, w5) \<Rightarrow> (Inl err, emit (Install (path_string targetDir) None) w5)
                                  | (Inr exitCode, w5) \<Rightarrow>
                                      if exitCode \<noteq> 0
                                      then (Inl (Error (''bun install failed with exit code '' @ showInt exitCode @ ''.'')),
                                            emit (Install (path_string targetDir) (Some exitCode)) w5)
                                      else (Inr \<lparr>createdFiles = map path_string createdFiles,
                                                 installedDependencies = True,
                                                 res_projectName = projectName,
                                                 res_targetDir = path_string targetDir\<rparr>,
                                            emit (Install (path_string targetDir) (Some exitCode)) w5))
                               else (Inr \<lparr>createdFiles = map path_string createdFiles,
                                          installedDependencies = False,
                                          res_projectName = projectName,
                                          res_targetDir = path_string targetDir\<rparr>, w4)))))"

text \<open>\<open>try { ... } finally { await rm(stagingDir, ...) }\<close>.\<close>

definition scaffoldStaged ::
  "env \<Rightarrow> string \<Rightarrow> path \<Rightarrow> string \<Rightarrow> bool \<Rightarrow> (string \<Rightarrow> world \<Rightarrow> (error + int) \<times> world)
     \<Rightarrow> path \<Rightarrow> world \<Rightarrow> (error + ScaffoldResult) \<times> world" where
  "scaffoldStaged e templateRepo targetDir projectName install runInstall stagingDir w =
     (case scaffoldTry e templateRepo targetDir projectName install runInstall stagingDir w of
        (r, w1) \<Rightarrow> (r, emit (Rm stagingDir) (w1\<lparr>fs := rm stagingDir (fs w1)\<rparr>)))"

definition scaffoldProject :: "env \<Rightarrow> ScaffoldOptions \<Rightarrow> world \<Rightarrow> (error + ScaffoldResult) \<times> world" where
  "scaffoldProject e options w =
     (let targetDir = resolve (cwd e) (opt_targetDir options);
          projectName = trim (opt_projectName options);
          force = orElse (opt_force options) False;
          install = orElse (opt_install options) True;
          runInstall = (case opt_runInstall options of None \<Rightarrow> runBunInstall e | Some f \<Rightarrow> injected f);
          templateRepo = orElse (opt_templateRepo options) DEFAULT_TEMPLATE_REPO
      in if length projectName = 0 then (Inl (Error ''Project name must not be empty.''), w)
         else
           (case isDirectoryEmpty targetDir (fs w) of
              Inl err \<Rightarrow> (Inl err, w)
            | Inr isEmpty \<Rightarrow>
                if \<not> isEmpty \<and> \<not> force
                then (Inl (Error (''Target directory is not empty: '' @ path_string targetDir
                                   @ ''. Use --force to overwrite.'')), w)
                else
                  (case mkdirp targetDir (fs w) of
                     Inl err \<Rightarrow> (Inl (SystemError err), w)
                   | Inr root1 \<Rightarrow>
                       (let w1 = emit (Mkdir targetDir) (w\<lparr>fs := root1\<rparr>)
                        in case mkdtemp (resolve (dirname targetDir) ''.new-template-'') (tmpSuffix e) (fs w1) of
                             Inl err \<Rightarrow> (Inl (SystemError err), w1)
                           | Inr (stagingDir, root2) \<Rightarrow>
                               scaffoldStaged e templateRepo targetDir projectName install runInstall
                                 stagingDir (emit (Mkdtemp stagingDir) (w1\<lparr>fs := root2\<rparr>))))))"

section \<open>The command line\<close>

record CliOptions =
  cli_force :: bool
  cli_help :: bool
  cli_install :: bool
  pathArg :: "string option"
  projectNameArg :: "string option"
  cli_version :: bool

text \<open>The loop of \<open>parseArgs\<close> over the arguments left, with the options so far.\<close>

fun parseLoop :: "CliOptions \<Rightarrow> string list \<Rightarrow> error + CliOptions" where
  "parseLoop options [] = Inr options"
| "parseLoop options (arg # rest) =
     (if arg = ''--help'' \<or> arg = ''-h'' then parseLoop (options\<lparr>cli_help := True\<rparr>) rest
      else if arg = ''--version'' \<or> arg = ''-v'' then parseLoop (options\<lparr>cli_version := True\<rparr>) rest
      else if arg = ''--force'' \<or> arg = ''-f'' then parseLoop (options\<lparr>cli_force := True\<rparr>) rest
      else if arg = ''--no-install'' then parseLoop (options\<lparr>cli_install := False\<rparr>) rest
      else if arg = ''--path'' \<or> arg = ''-p'' then
        (case rest of
           [] \<Rightarrow> Inl (Error (''Missing value for '' @ arg @ ''.''))
         | next # rest' \<Rightarrow>
             if startsWith ''-'' next then Inl (Error (''Missing value for '' @ arg @ ''.''))
             else if length (trim next) = 0 then Inl (Error ''Path must not be empty.'')
             else if pathArg options \<noteq> None then Inl (Error ''Path can only be provided once.'')
             else parseLoop (options\<lparr>pathArg := Some next\<rparr>) rest')
      else if startsWith ''--path='' arg \<or> startsWith ''-p='' arg then
        (let v = tl (dropWhile (\<lambda>c. c \<noteq> CHR ''='') arg)
         in if length (trim v) = 0 then Inl (Error ''Path must not be empty.'')
            else if pathArg options \<noteq> None then Inl (Error ''Path can only be provided once.'')
            else parseLoop (options\<lparr>pathArg := Some v\<rparr>) rest)
      else if startsWith ''-'' arg then Inl (Error (''Unknown option: '' @ arg))
      else if projectNameArg options \<noteq> None then Inl (Error ''Only one project name can be provided.'')
      else parseLoop (options\<lparr>projectNameArg := Some arg\<rparr>) rest)"

definition initialOptions :: CliOptions where
  "initialOptions =
     \<lparr>cli_force = False, cli_help = False, cli_install = True,
      pathArg = None, projectNameArg = None, cli_version = False\<rparr>"

text \<open>The arguments that only set a flag.\<close>

definition isFlag :: "string \<Rightarrow> bool" where
  "isFlag arg = (arg \<in> set [''--help'', ''-h'', ''--version'', ''-v'', ''--force'', ''-f'', ''--no-install''])"

definition parseArgs :: "string list \<Rightarrow> error + CliOptions" where
  "parseArgs argv =
     (case parseLoop initialOptions argv of
        Inl err \<Rightarrow> Inl err
      | Inr options \<Rightarrow>
          if projectNameArg options \<noteq> None \<and> pathArg options \<noteq> None
          then Inl (Error ''Use either a project name argument or --path, not both.'')
          else Inr options)"

subsection \<open>What an argument list supplies, in the specification's words\<close>

text \<open>
  The positional arguments and the values of the path option (long or short form, space
  or equals delimited) of an argument list, read from left to right: the value that
  follows \<open>--path\<close> or \<open>-p\<close> belongs to the option, any other argument that starts with a
  hyphen is a flag, and what is left is positional.
\<close>

fun spec_suppliedPositionals :: "string list \<Rightarrow> string list" where
  "spec_suppliedPositionals [] = []"
| "spec_suppliedPositionals (arg # rest) =
     (if arg = ''--path'' \<or> arg = ''-p'' then
        (case rest of [] \<Rightarrow> [] | v # rest' \<Rightarrow> spec_suppliedPositionals rest')
      else if startsWith ''-'' arg then spec_suppliedPositionals rest
      else arg # spec_suppliedPositionals rest)"

fun spec_suppliedPaths :: "string list \<Rightarrow> string list" where
  "spec_suppliedPaths [] = []"
| "spec_suppliedPaths (arg # rest) =
     (if arg = ''--path'' \<or> arg = ''-p'' then
        (case rest of [] \<Rightarrow> [] | v # rest' \<Rightarrow> v # spec_suppliedPaths rest')
      else if startsWith ''--path='' arg \<or> startsWith ''-p='' arg then
        tl (dropWhile (\<lambda>c. c \<noteq> CHR ''='') arg) # spec_suppliedPaths rest
      else spec_suppliedPaths rest)"

subsection \<open>run\<close>

text \<open>The terminal: whether standard input is a TTY, and what the user answers to the
  text prompt and to the confirmation (\<open>None\<close> when the prompt is cancelled).\<close>

record terminal =
  isTTY :: bool
  textAnswer :: "string option"
  confirmAnswer :: "bool option"

datatype plan = ShowHelp | ShowVersion | Cancel | Scaffold ScaffoldOptions

text \<open>\<open>run\<close> up to its call of \<open>scaffoldProject\<close>: the options it passes, or how it ends
  before.\<close>

definition runCheckTarget :: "terminal \<Rightarrow> CliOptions \<Rightarrow> path \<Rightarrow> string \<Rightarrow> node \<Rightarrow> error + plan" where
  "runCheckTarget t options targetDir projectName root =
     (if length (trim projectName) = 0 then Inl (Error ''Project name is required.'')
      else
        (case isDirectoryEmpty targetDir root of
           Inl err \<Rightarrow> Inl err
         | Inr isEmpty \<Rightarrow>
             if \<not> isEmpty \<and> \<not> cli_force options then
               (if \<not> isTTY t
                then Inl (Error (''Target directory is not empty: '' @ path_string targetDir
                                  @ ''. Use --force to overwrite.''))
                else
                  (case confirmAnswer t of
                     None \<Rightarrow> Inr Cancel
                   | Some shouldOverwrite \<Rightarrow>
                       if \<not> shouldOverwrite then Inl (Error ''Aborted because target directory is not empty.'')
                       else Inr (Scaffold \<lparr>opt_force = Some True, opt_install = Some (cli_install options),
                                           opt_projectName = projectName, opt_runInstall = None,
                                           opt_templateRepo = None, opt_targetDir = path_string targetDir\<rparr>)))
             else Inr (Scaffold \<lparr>opt_force = Some (cli_force options), opt_install = Some (cli_install options),
                                 opt_projectName = projectName, opt_runInstall = None,
                                 opt_templateRepo = None, opt_targetDir = path_string targetDir\<rparr>)))"

definition runPlan :: "env \<Rightarrow> terminal \<Rightarrow> string list \<Rightarrow> node \<Rightarrow> error + plan" where
  "runPlan e t argv root =
     (case parseArgs argv of
        Inl err \<Rightarrow> Inl err
      | Inr options \<Rightarrow>
          if cli_help options then Inr ShowHelp
          else if cli_version options then Inr ShowVersion
          else
            (case pathArg options of
               Some a \<Rightarrow> runCheckTarget t options (resolve (cwd e) a) (basename (resolve (cwd e) a)) root
             | None \<Rightarrow>
                 (case projectNameArg options of
                    Some a \<Rightarrow> runCheckTarget t options (resolve (cwd e) a) (basename (resolve (cwd e) a)) root
                  | None \<Rightarrow>
                      (case isDirectoryEmpty (cwd e) root of
                         Inl err \<Rightarrow> Inl err
                       | Inr isEmpty \<Rightarrow>
                           if \<not> isEmpty then
                             (if \<not> isTTY t
                              then Inl (Error (''Current directory is not empty. Use '' @ [CHR 0x60]
                                                @ ''new <project-name>'' @ [CHR 0x60] @ '' or '' @ [CHR 0x60]
                                                @ ''new --path <path>'' @ [CHR 0x60] @ ''.''))
                              else
                                (case textAnswer t of
                                   None \<Rightarrow> Inr Cancel
                                 | Some answer \<Rightarrow>
                                     runCheckTarget t options (resolve (cwd e) (trim answer))
                                       (basename (resolve (cwd e) (trim answer))) root))
                           else runCheckTarget t options (cwd e) (basename (cwd e)) root))))"

datatype outcome = HelpShown | VersionShown | Cancelled | Created ScaffoldResult

definition run :: "env \<Rightarrow> terminal \<Rightarrow> string list \<Rightarrow> world \<Rightarrow> (error + outcome) \<times> world" where
  "run e t argv w =
     (case runPlan e t argv (fs w) of
        Inl err \<Rightarrow> (Inl err, w)
      | Inr ShowHelp \<Rightarrow> (Inr HelpShown, w)
      | Inr ShowVersion \<Rightarrow> (Inr VersionShown, w)
      | Inr Cancel \<Rightarrow> (Inr Cancelled, w)
      | Inr (Scaffold options) \<Rightarrow>
          (case scaffoldProject e options w of
             (Inl err, w1) \<Rightarrow> (Inl err, w1)
           | (Inr result, w1) \<Rightarrow> (Inr (Created result), w1)))"

section \<open>An example run\<close>






section \<open>Observing the trace\<close>

text \<open>The events by which a run shows that it created a staging directory or ran the
  install command: \<open>mkdtemp\<close>, a process \<open>bun install\<close>, and a call of \<open>runInstall\<close>.\<close>

fun notable :: "event \<Rightarrow> bool" where
  "notable (Mkdtemp p) = True"
| "notable (Install dir code) = True"
| "notable (Spawn cmd cwdOpt) = (cmd = [''bun'', ''install''])"
| "notable (Mkdir p) = False"
| "notable (Rm p) = False"
| "notable (Cp p q) = False"
| "notable (WriteFile p) = False"
| "notable (ConsoleError s) = False"

definition notables :: "world \<Rightarrow> event list" where
  "notables w = filter notable (trace w)"

section \<open>Properties of normalizePackageName\<close>

subsection \<open>Characters\<close>

lemma hyphen_code: "code_unit c = 45 \<longleftrightarrow> c = CHR ''-''"
proof -
  have "code_unit (CHR ''-'') = 45" by (simp add: code_unit_def)
  then show ?thesis by (metis code_unit_def of_char_eq_iff)
qed

lemma underscore_code: "code_unit c = 95 \<longleftrightarrow> c = CHR ''_''"
proof -
  have "code_unit (CHR ''_'') = 95" by (simp add: code_unit_def)
  then show ?thesis by (metis code_unit_def of_char_eq_iff)
qed

lemma packageChar_codes:
  "packageChar c \<longleftrightarrow> (97 \<le> code_unit c \<and> code_unit c \<le> 122) \<or> (48 \<le> code_unit c \<and> code_unit c \<le> 57)
      \<or> code_unit c = 45 \<or> code_unit c = 95"
  by (simp add: packageChar_def Let_def hyphen_code underscore_code)

lemma packageChar_lower: "packageChar c \<Longrightarrow> toLowerCaseChar c = c"
  by (auto simp: packageChar_codes toLowerCaseChar_def Let_def)

lemma packageChar_not_ws: "packageChar c \<Longrightarrow> \<not> isWhiteSpace c"
  by (auto simp: packageChar_codes isWhiteSpace_def)

lemma ws_lower: "isWhiteSpace c \<Longrightarrow> toLowerCaseChar c = c"
  by (auto simp: isWhiteSpace_def toLowerCaseChar_def Let_def)

lemma packageChar_hyphen: "packageChar (CHR ''-'')"
  by (simp add: packageChar_def)

lemma ws_invalid: "isWhiteSpace c \<Longrightarrow> \<not> packageChar (toLowerCaseChar c)"
  using packageChar_not_ws [of c] by (auto simp: ws_lower)

subsection \<open>Collapsing hyphens\<close>

lemma collapse_Nil_iff: "collapseHyphens s = [] \<longleftrightarrow> s = []"
  by (induction s rule: collapseHyphens.induct) auto

lemma hd_collapse: "hd (collapseHyphens s) = hd s"
  by (induction s rule: collapseHyphens.induct) auto

lemma collapse_Cons:
  "collapseHyphens (c # x) =
     (if c = CHR ''-'' \<and> x \<noteq> [] \<and> hd x = CHR ''-'' then collapseHyphens x
      else c # collapseHyphens x)"
  by (cases x) auto

lemma collapse_cong:
  "collapseHyphens x = collapseHyphens y \<Longrightarrow> collapseHyphens (c # x) = collapseHyphens (c # y)"
  using collapse_Nil_iff [of x] collapse_Nil_iff [of y] hd_collapse [of x] hd_collapse [of y]
  by (simp add: collapse_Cons)

lemma collapse_snoc:
  "collapseHyphens (x @ [c]) =
     (if c = CHR ''-'' \<and> x \<noteq> [] \<and> last x = CHR ''-'' then collapseHyphens x
      else collapseHyphens x @ [c])"
  by (induction x rule: collapseHyphens.induct) auto

lemma collapse_rev: "collapseHyphens (rev t) = rev (collapseHyphens t)"
proof (induction t)
  case Nil
  then show ?case by simp
next
  case (Cons c t)
  have "collapseHyphens (rev (c # t)) = collapseHyphens (rev t @ [c])"
    by simp
  also have "\<dots> = (if c = CHR ''-'' \<and> t \<noteq> [] \<and> hd t = CHR ''-'' then rev (collapseHyphens t)
                    else rev (collapseHyphens t) @ [c])"
    unfolding collapse_snoc Cons.IH by (simp add: last_rev)
  also have "\<dots> = rev (collapseHyphens (c # t))"
    unfolding collapse_Cons by simp
  finally show ?case .
qed

lemma collapse_dropWhile:
  "dropWhile (\<lambda>d. d = CHR ''-'') (collapseHyphens t) = collapseHyphens (dropWhile (\<lambda>d. d = CHR ''-'') t)"
  by (induction t rule: collapseHyphens.induct) auto

lemma collapse_idem: "collapseHyphens (collapseHyphens t) = collapseHyphens t"
proof (induction t)
  case Nil
  then show ?case by simp
next
  case (Cons c t)
  then show ?case
    by (simp add: collapse_Cons collapse_Nil_iff hd_collapse)
qed

lemma set_collapse: "set (collapseHyphens t) \<subseteq> set t"
  by (induction t rule: collapseHyphens.induct) auto

lemma collapse_hyphen_dropWhile:
  "collapseHyphens (CHR ''-'' # s) = CHR ''-'' # collapseHyphens (dropWhile (\<lambda>d. d = CHR ''-'') s)"
  by (induction s) (auto simp: collapse_Cons)

lemma spec_collapse_eq: "spec_collapseRepeated s = collapseHyphens s"
proof (induction s rule: spec_collapseRepeated.induct)
  case 1
  then show ?case by simp
next
  case (2 c s)
  show ?case
  proof (cases "c = CHR ''-''")
    case True
    with 2 show ?thesis by (simp add: collapse_hyphen_dropWhile)
  next
    case False
    with 2 show ?thesis by (simp add: collapse_Cons)
  qed
qed

lemma collapse_hyphen_invalid:
  "collapseHyphens (CHR ''-'' # replaceInvalid (dropWhile (\<lambda>d. \<not> packageChar d) s))
     = collapseHyphens (CHR ''-'' # replaceInvalid s)"
  by (induction s) (auto simp: replaceInvalid_def)

lemma collapse_runs: "collapseHyphens (spec_replaceRuns t) = collapseHyphens (replaceInvalid t)"
proof (induction t rule: spec_replaceRuns.induct)
  case 1
  then show ?case by (simp add: replaceInvalid_def)
next
  case (2 c s)
  show ?case
  proof (cases "packageChar c")
    case True
    then have "collapseHyphens (spec_replaceRuns s) = collapseHyphens (replaceInvalid s)"
      using 2 by simp
    then have "collapseHyphens (c # spec_replaceRuns s) = collapseHyphens (c # replaceInvalid s)"
      by (rule collapse_cong)
    with True show ?thesis by (simp add: replaceInvalid_def)
  next
    case False
    let ?d = "dropWhile (\<lambda>d. \<not> packageChar d) s"
    from False have "collapseHyphens (spec_replaceRuns ?d) = collapseHyphens (replaceInvalid ?d)"
      using 2 by simp
    then have "collapseHyphens (CHR ''-'' # spec_replaceRuns ?d) = collapseHyphens (CHR ''-'' # replaceInvalid ?d)"
      by (rule collapse_cong)
    also have "\<dots> = collapseHyphens (CHR ''-'' # replaceInvalid s)"
      by (rule collapse_hyphen_invalid)
    finally show ?thesis using False by (simp add: replaceInvalid_def)
  qed
qed

subsection \<open>Stripping hyphens\<close>

lemma strip_collapse: "spec_stripHyphens (collapseHyphens t) = collapseHyphens (spec_stripHyphens t)"
  by (simp add: spec_stripHyphens_def collapse_dropWhile collapse_rev [symmetric])

lemma dropWhile_collapse_once:
  "dropWhile (\<lambda>d. d = CHR ''-'') (collapseHyphens x) =
     (case collapseHyphens x of [] \<Rightarrow> [] | c # r \<Rightarrow> if c = CHR ''-'' then r else collapseHyphens x)"
proof (cases x)
  case Nil
  then show ?thesis by simp
next
  case (Cons c s)
  show ?thesis
  proof (cases "c = CHR ''-''")
    case True
    then show ?thesis
      unfolding Cons by (simp add: collapse_hyphen_dropWhile collapse_dropWhile)
  next
    case False
    then show ?thesis
      unfolding Cons by (simp add: collapse_Cons)
  qed
qed

lemma dropWhileEnd_collapse_once:
  "rev (dropWhile (\<lambda>d. d = CHR ''-'') (rev (collapseHyphens y))) =
     (if collapseHyphens y \<noteq> [] \<and> last (collapseHyphens y) = CHR ''-''
      then butlast (collapseHyphens y) else collapseHyphens y)"
proof -
  have "dropWhile (\<lambda>d. d = CHR ''-'') (rev (collapseHyphens y)) =
        (case rev (collapseHyphens y) of [] \<Rightarrow> []
         | c # r \<Rightarrow> if c = CHR ''-'' then r else rev (collapseHyphens y))"
    using dropWhile_collapse_once [of "rev y"] by (simp only: collapse_rev)
  then show ?thesis
    by (cases "collapseHyphens y" rule: rev_cases) simp_all
qed

lemma strip_edge_collapse:
  "stripEdgeHyphens (collapseHyphens x) = spec_stripHyphens (collapseHyphens x)"
proof -
  let ?H = "\<lambda>d. d = CHR ''-''"
  have front: "(case collapseHyphens x of [] \<Rightarrow> [] | c # r \<Rightarrow> if c = CHR ''-'' then r else collapseHyphens x)
      = collapseHyphens (dropWhile ?H x)"
    using dropWhile_collapse_once [of x] by (simp only: collapse_dropWhile)
  show ?thesis
    unfolding stripEdgeHyphens_def spec_stripHyphens_def Let_def front
    by (simp only: dropWhileEnd_collapse_once collapse_dropWhile)
qed

lemma strip_absorb:
  assumes pre: "\<forall>c \<in> set pre. c = CHR ''-''" and post: "\<forall>c \<in> set post. c = CHR ''-''"
  shows "spec_stripHyphens (pre @ m @ post) = spec_stripHyphens m"
proof -
  let ?H = "\<lambda>d. d = CHR ''-''"
  have 1: "dropWhile ?H (pre @ m @ post) = dropWhile ?H (m @ post)"
    using pre by (simp add: dropWhile_append2)
  show ?thesis
  proof (cases "\<forall>c \<in> set m. c = CHR ''-''")
    case True
    then have "dropWhile ?H (m @ post) = []" "dropWhile ?H m = []"
      using post by (simp_all add: dropWhile_eq_Nil_conv)
    then show ?thesis by (simp only: spec_stripHyphens_def 1)
  next
    case False
    then obtain c where c: "c \<in> set m" "c \<noteq> CHR ''-''" by blast
    then have 2: "dropWhile ?H (m @ post) = dropWhile ?H m @ post"
      by (simp add: dropWhile_append1)
    have "dropWhile ?H (rev post @ rev (dropWhile ?H m)) = dropWhile ?H (rev (dropWhile ?H m))"
      using post by (intro dropWhile_append2) simp
    then show ?thesis by (simp add: spec_stripHyphens_def 1 2)
  qed
qed

lemma strip_ends:
  assumes "spec_stripHyphens t \<noteq> []"
  shows "hd (spec_stripHyphens t) \<noteq> CHR ''-'' \<and> last (spec_stripHyphens t) \<noteq> CHR ''-''"
proof -
  let ?H = "\<lambda>d. d = CHR ''-''"
  let ?a = "dropWhile ?H t"
  let ?w = "dropWhile ?H (rev ?a)"
  from assms have w: "?w \<noteq> []" by (simp add: spec_stripHyphens_def)
  have a: "?a \<noteq> []"
  proof
    assume "?a = []"
    then have "?w = []" by (simp only: rev.simps dropWhile.simps)
    with w show False by blast
  qed
  from w have "\<not> ?H (hd ?w)" by (rule hd_dropWhile)
  then have l: "last (rev ?w) \<noteq> CHR ''-''" using w by (simp add: last_rev)
  from w have "\<not> (\<forall>x \<in> set (rev ?a). ?H x)"
    unfolding dropWhile_eq_Nil_conv .
  then obtain x where "x \<in> set (rev ?a)" "\<not> ?H x"
    by blast
  then have "last ?w = last (rev ?a)" by (rule dropWhile_last)
  also have "\<dots> = hd ?a" using a by (simp add: last_rev)
  finally have "last ?w = hd ?a" .
  moreover have "\<not> ?H (hd ?a)" using a by (rule hd_dropWhile)
  ultimately have "hd (rev ?w) \<noteq> CHR ''-''" using w by (simp add: hd_rev)
  with l show ?thesis by (simp add: spec_stripHyphens_def)
qed

lemma strip_fix:
  assumes "u = [] \<or> (hd u \<noteq> CHR ''-'' \<and> last u \<noteq> CHR ''-'')"
  shows "spec_stripHyphens u = u"
proof (cases u rule: rev_cases)
  case Nil
  then show ?thesis by (simp add: spec_stripHyphens_def)
next
  case (snoc ys y)
  with assms have "y \<noteq> CHR ''-''" "hd (ys @ [y]) \<noteq> CHR ''-''" by auto
  then have "dropWhile (\<lambda>d. d = CHR ''-'') (ys @ [y]) = ys @ [y]"
    by (cases ys) auto
  with \<open>y \<noteq> CHR ''-''\<close> show ?thesis by (simp add: spec_stripHyphens_def snoc)
qed

lemma strip_idem: "spec_stripHyphens (spec_stripHyphens t) = spec_stripHyphens t"
  using strip_ends [of t] by (intro strip_fix) blast

lemma set_stripEdge: "set (stripEdgeHyphens t) \<subseteq> set t"
  by (auto simp: stripEdgeHyphens_def Let_def split: list.splits if_splits dest: in_set_butlastD)

subsection \<open>Trimming\<close>

lemma trim_decompose:
  "\<exists>pre post. s = pre @ trim s @ post \<and> (\<forall>c \<in> set pre. isWhiteSpace c) \<and> (\<forall>c \<in> set post. isWhiteSpace c)"
proof -
  let ?a = "dropWhile isWhiteSpace s"
  let ?post = "rev (takeWhile isWhiteSpace (rev ?a))"
  have "rev (takeWhile isWhiteSpace (rev ?a) @ dropWhile isWhiteSpace (rev ?a)) = rev (rev ?a)"
    by (simp only: takeWhile_dropWhile_id)
  then have a: "?a = trim s @ ?post"
    by (simp only: rev_append rev_rev_ident trim_def)
  have "s = takeWhile isWhiteSpace s @ ?a" by simp
  with a have "s = takeWhile isWhiteSpace s @ trim s @ ?post" by simp
  moreover have "\<forall>c \<in> set (takeWhile isWhiteSpace s). isWhiteSpace c"
    by (auto dest: set_takeWhileD)
  moreover have "\<forall>c \<in> set ?post. isWhiteSpace c"
    by (auto dest: set_takeWhileD)
  ultimately show ?thesis by blast
qed

lemma strip_trim:
  "spec_stripHyphens (replaceInvalid (toLowerCase (trim s))) = spec_stripHyphens (replaceInvalid (toLowerCase s))"
proof -
  let ?g = "\<lambda>t. replaceInvalid (toLowerCase t)"
  obtain pre post where d: "s = pre @ trim s @ post"
    and pre: "\<forall>c \<in> set pre. isWhiteSpace c" and post: "\<forall>c \<in> set post. isWhiteSpace c"
    using trim_decompose by blast
  have g: "?g (pre @ trim s @ post) = ?g pre @ ?g (trim s) @ ?g post"
    by (simp add: replaceInvalid_def toLowerCase_def)
  have "\<forall>c \<in> set (?g pre). c = CHR ''-''" "\<forall>c \<in> set (?g post). c = CHR ''-''"
    using pre post by (auto simp: replaceInvalid_def toLowerCase_def ws_invalid)
  then have "spec_stripHyphens (?g pre @ ?g (trim s) @ ?g post) = spec_stripHyphens (?g (trim s))"
    by (rule strip_absorb)
  with g d show ?thesis by metis
qed

lemma class_trim:
  assumes "\<forall>c \<in> set r. packageChar c"
  shows "trim r = r"
proof (cases r rule: rev_cases)
  case Nil
  then show ?thesis by (simp add: trim_def)
next
  case (snoc ys y)
  with assms have y: "\<not> isWhiteSpace y" and h: "\<not> isWhiteSpace (hd (ys @ [y]))"
    by (auto simp: packageChar_not_ws hd_append)
  from h have "dropWhile isWhiteSpace (ys @ [y]) = ys @ [y]"
    by (cases ys) auto
  with y show ?thesis by (simp add: trim_def snoc)
qed

subsection \<open>The four replacements\<close>

lemma normalize_pipeline:
  "stripEdgeHyphens (collapseHyphens (replaceInvalid (toLowerCase (trim s))))
   = spec_stripHyphens (spec_collapseRepeated (spec_replaceRuns (toLowerCase s)))"
proof -
  have "stripEdgeHyphens (collapseHyphens (replaceInvalid (toLowerCase (trim s))))
      = collapseHyphens (spec_stripHyphens (replaceInvalid (toLowerCase (trim s))))"
    by (simp only: strip_edge_collapse strip_collapse)
  also have "\<dots> = spec_stripHyphens (collapseHyphens (replaceInvalid (toLowerCase s)))"
    by (simp only: strip_trim strip_collapse)
  also have "\<dots> = spec_stripHyphens (spec_collapseRepeated (spec_replaceRuns (toLowerCase s)))"
    by (simp only: collapse_runs spec_collapse_eq)
  finally show ?thesis .
qed

lemma replaceInvalid_class: "c \<in> set (replaceInvalid t) \<Longrightarrow> packageChar c"
  by (auto simp: replaceInvalid_def packageChar_hyphen)

lemma core_class: "c \<in> set (stripEdgeHyphens (collapseHyphens (replaceInvalid t))) \<Longrightarrow> packageChar c"
  using set_stripEdge set_collapse replaceInvalid_class by blast

lemma core_collapse:
  "collapseHyphens (stripEdgeHyphens (collapseHyphens t)) = stripEdgeHyphens (collapseHyphens t)"
  by (simp only: strip_edge_collapse strip_collapse collapse_idem)

lemma core_strip:
  "stripEdgeHyphens (stripEdgeHyphens (collapseHyphens t)) = stripEdgeHyphens (collapseHyphens t)"
proof -
  have "stripEdgeHyphens (collapseHyphens t) = collapseHyphens (spec_stripHyphens t)"
    by (simp only: strip_edge_collapse strip_collapse)
  moreover have "stripEdgeHyphens (collapseHyphens (spec_stripHyphens t)) = collapseHyphens (spec_stripHyphens t)"
    by (simp only: strip_edge_collapse strip_collapse strip_idem)
  ultimately show ?thesis by simp
qed

lemma class_toLowerCase: "\<forall>c \<in> set r. packageChar c \<Longrightarrow> toLowerCase r = r"
  by (simp add: toLowerCase_def packageChar_lower map_idI)

lemma class_replaceInvalid: "\<forall>c \<in> set r. packageChar c \<Longrightarrow> replaceInvalid r = r"
  by (simp add: replaceInvalid_def map_idI)

lemma core_fixed:
  assumes r: "r = stripEdgeHyphens (collapseHyphens (replaceInvalid t))"
  shows "stripEdgeHyphens (collapseHyphens (replaceInvalid (toLowerCase (trim r)))) = r"
proof -
  have cls: "\<forall>c \<in> set r. packageChar c"
    unfolding r using core_class by blast
  then have "replaceInvalid (toLowerCase (trim r)) = r"
    by (simp add: class_trim class_toLowerCase class_replaceInvalid)
  then show ?thesis
    unfolding r by (simp only: core_collapse core_strip)
qed

lemma fallback_fixed: "normalizePackageName ''bun-app'' = ''bun-app''"
  by code_simp

lemma fallback_matches: "matchesPackageName ''bun-app''"
  by code_simp

lemma normalize_matches: "matchesPackageName (normalizePackageName s)"
proof -
  let ?r = "stripEdgeHyphens (collapseHyphens (replaceInvalid (toLowerCase (trim s))))"
  show ?thesis
  proof (cases "?r = []")
    case True
    then have "normalizePackageName s = ''bun-app''"
      by (simp add: normalizePackageName_def)
    with fallback_matches show ?thesis by simp
  next
    case False
    then have n: "normalizePackageName s = ?r"
      by (simp add: normalizePackageName_def)
    have "\<forall>c \<in> set ?r. packageChar c" using core_class by blast
    with False n show ?thesis by (simp add: matchesPackageName_def list_all_iff)
  qed
qed

lemma normalize_refines: "normalizePackageName s = spec_normalizePackageName s"
  by (simp only: normalizePackageName_def spec_normalizePackageName_def normalize_pipeline)

text \<open>
  C4. For every string, \<open>normalizePackageName\<close> returns a string that matches
  \<open>^[a-z0-9-_]+$\<close> (the fallback name \<open>bun-app\<close> matches it too); the result is the one
  the rule of the specification computes: lower-case the name, replace every run of
  characters outside \<open>[a-z0-9-_]\<close> by one hyphen, collapse repeated hyphens, strip the
  leading and trailing hyphens, and take \<open>bun-app\<close> when nothing is left. The name
  \<open>My App!\<close> becomes \<open>my-app\<close>.
\<close>

theorem normalizePackageName_spec:
  "matchesPackageName (normalizePackageName s)
   \<and> normalizePackageName s = spec_normalizePackageName s
   \<and> normalizePackageName ''My App!'' = ''my-app''"
proof -
  have "normalizePackageName ''My App!'' = ''my-app''" by code_simp
  with normalize_matches normalize_refines show ?thesis by blast
qed

text \<open>
  C5. \<open>normalizePackageName\<close> is idempotent: normalizing a normalized name changes
  nothing.
\<close>

theorem normalizePackageName_idempotent:
  "normalizePackageName (normalizePackageName s) = normalizePackageName s"
proof -
  let ?r = "stripEdgeHyphens (collapseHyphens (replaceInvalid (toLowerCase (trim s))))"
  show ?thesis
  proof (cases "?r = []")
    case True
    then have "normalizePackageName s = ''bun-app''"
      by (simp add: normalizePackageName_def)
    then show ?thesis by (simp only: fallback_fixed)
  next
    case False
    then have n: "normalizePackageName s = ?r"
      by (simp add: normalizePackageName_def)
    have "stripEdgeHyphens (collapseHyphens (replaceInvalid (toLowerCase (trim ?r)))) = ?r"
      by (rule core_fixed) simp
    then have "normalizePackageName ?r = ?r"
      using False by (simp add: normalizePackageName_def)
    with n show ?thesis by simp
  qed
qed

section \<open>Properties of isDirectoryEmpty\<close>



section \<open>Properties of parseArgs\<close>

subsection \<open>One iteration of the loop\<close>

lemma parseLoop_help:
  "arg = ''--help'' \<or> arg = ''-h'' \<Longrightarrow>
     parseLoop options (arg # rest) = parseLoop (options\<lparr>cli_help := True\<rparr>) rest"
  by (subst parseLoop.simps) (simp only: if_True)

lemma parseLoop_version:
  "arg = ''--version'' \<or> arg = ''-v'' \<Longrightarrow>
     parseLoop options (arg # rest) = parseLoop (options\<lparr>cli_version := True\<rparr>) rest"
  by (subst parseLoop.simps) auto

lemma parseLoop_force:
  "arg = ''--force'' \<or> arg = ''-f'' \<Longrightarrow>
     parseLoop options (arg # rest) = parseLoop (options\<lparr>cli_force := True\<rparr>) rest"
  by (subst parseLoop.simps) auto

lemma parseLoop_noinstall:
  "arg = ''--no-install'' \<Longrightarrow>
     parseLoop options (arg # rest) = parseLoop (options\<lparr>cli_install := False\<rparr>) rest"
  by (subst parseLoop.simps) auto

lemma parseLoop_pathopt:
  "arg = ''--path'' \<or> arg = ''-p'' \<Longrightarrow>
     parseLoop options (arg # rest) =
       (case rest of
           [] \<Rightarrow> Inl (Error (''Missing value for '' @ arg @ ''.''))
         | next # rest' \<Rightarrow>
             if startsWith ''-'' next then Inl (Error (''Missing value for '' @ arg @ ''.''))
             else if length (trim next) = 0 then Inl (Error ''Path must not be empty.'')
             else if pathArg options \<noteq> None then Inl (Error ''Path can only be provided once.'')
             else parseLoop (options\<lparr>pathArg := Some next\<rparr>) rest')"
  by (subst parseLoop.simps) auto

lemma parseLoop_other:
  "\<not> isFlag arg \<Longrightarrow> \<not> (arg = ''--path'' \<or> arg = ''-p'') \<Longrightarrow>
     parseLoop options (arg # rest) =
       (if startsWith ''--path='' arg \<or> startsWith ''-p='' arg then
          (let v = tl (dropWhile (\<lambda>c. c \<noteq> CHR ''='') arg)
           in if length (trim v) = 0 then Inl (Error ''Path must not be empty.'')
              else if pathArg options \<noteq> None then Inl (Error ''Path can only be provided once.'')
              else parseLoop (options\<lparr>pathArg := Some v\<rparr>) rest)
        else if startsWith ''-'' arg then Inl (Error (''Unknown option: '' @ arg))
        else if projectNameArg options \<noteq> None then Inl (Error ''Only one project name can be provided.'')
        else parseLoop (options\<lparr>projectNameArg := Some arg\<rparr>) rest)"
  by (subst parseLoop.simps) (simp add: isFlag_def)

lemma parseLoop_flag:
  "isFlag arg \<Longrightarrow>
     \<exists>options1. parseLoop options (arg # rest) = parseLoop options1 rest
        \<and> pathArg options1 = pathArg options \<and> projectNameArg options1 = projectNameArg options"
proof -
  assume "isFlag arg"
  then consider "arg = ''--help'' \<or> arg = ''-h''" | "arg = ''--version'' \<or> arg = ''-v''"
    | "arg = ''--force'' \<or> arg = ''-f''" | "arg = ''--no-install''"
    unfolding isFlag_def by fastforce
  then show ?thesis
  proof cases
    case 1
    then show ?thesis using parseLoop_help [OF 1, of options rest] by (intro exI [of _ "options\<lparr>cli_help := True\<rparr>"]) simp
  next
    case 2
    then show ?thesis using parseLoop_version [OF 2, of options rest] by (intro exI [of _ "options\<lparr>cli_version := True\<rparr>"]) simp
  next
    case 3
    then show ?thesis using parseLoop_force [OF 3, of options rest] by (intro exI [of _ "options\<lparr>cli_force := True\<rparr>"]) simp
  next
    case 4
    then show ?thesis using parseLoop_noinstall [OF 4, of options rest] by (intro exI [of _ "options\<lparr>cli_install := False\<rparr>"]) simp
  qed
qed

lemma supplied_flag:
  assumes "isFlag arg"
  shows "spec_suppliedPositionals (arg # rest) = spec_suppliedPositionals rest
     \<and> spec_suppliedPaths (arg # rest) = spec_suppliedPaths rest"
proof -
  from assms consider "arg = ''--help''" | "arg = ''-h''" | "arg = ''--version''" | "arg = ''-v''"
    | "arg = ''--force''" | "arg = ''-f''" | "arg = ''--no-install''"
    unfolding isFlag_def by fastforce
  then show ?thesis
    by cases (simp_all add: startsWith_def)
qed

lemma supplied_pathopt:
  assumes "arg = ''--path'' \<or> arg = ''-p''"
  shows "spec_suppliedPositionals (arg # next # rest) = spec_suppliedPositionals rest
     \<and> spec_suppliedPaths (arg # next # rest) = next # spec_suppliedPaths rest"
proof -
  from assms consider "arg = ''--path''" | "arg = ''-p''" by fastforce
  then show ?thesis
    by cases simp_all
qed

lemma startsWith_dash:
  "startsWith ''--path='' arg \<or> startsWith ''-p='' arg \<Longrightarrow> startsWith ''-'' arg"
  by (auto simp: startsWith_def prefix_def)

lemma supplied_patheq:
  assumes "\<not> (arg = ''--path'' \<or> arg = ''-p'')" "startsWith ''--path='' arg \<or> startsWith ''-p='' arg"
  shows "spec_suppliedPositionals (arg # rest) = spec_suppliedPositionals rest
     \<and> spec_suppliedPaths (arg # rest) = tl (dropWhile (\<lambda>c. c \<noteq> CHR ''='') arg) # spec_suppliedPaths rest"
  using assms startsWith_dash [OF assms(2)]
  by (simp only: spec_suppliedPositionals.simps spec_suppliedPaths.simps if_True if_False simp_thms)

lemma supplied_positional:
  assumes "\<not> (arg = ''--path'' \<or> arg = ''-p'')" "\<not> startsWith ''-'' arg"
  shows "spec_suppliedPositionals (arg # rest) = arg # spec_suppliedPositionals rest
     \<and> spec_suppliedPaths (arg # rest) = spec_suppliedPaths rest"
proof -
  have "\<not> (startsWith ''--path='' arg \<or> startsWith ''-p='' arg)"
    using assms(2) startsWith_dash by blast
  with assms show ?thesis
    by (simp only: spec_suppliedPositionals.simps spec_suppliedPaths.simps if_True if_False simp_thms)
qed

subsection \<open>The whole loop\<close>

declare parseLoop.simps(2) [simp del]
declare spec_suppliedPositionals.simps(2) [simp del]
declare spec_suppliedPaths.simps(2) [simp del]

text \<open>Every error of the loop is an \<open>Error\<close> with a message. The loop sets each of the
  two fields at most once, and exactly when the argument list supplies a value for it.\<close>

lemma parseLoop_inv:
  "parseLoop options argv = R \<Longrightarrow>
     (\<forall>err. R = Inl err \<longrightarrow> (\<exists>msg. err = Error msg))
     \<and> (\<forall>options'. R = Inr options' \<longrightarrow>
          (if projectNameArg options = None
           then (spec_suppliedPositionals argv = [] \<and> projectNameArg options' = None)
                \<or> (\<exists>a. spec_suppliedPositionals argv = [a] \<and> projectNameArg options' = Some a)
           else spec_suppliedPositionals argv = [] \<and> projectNameArg options' = projectNameArg options)
          \<and> (if pathArg options = None
           then (spec_suppliedPaths argv = [] \<and> pathArg options' = None)
                \<or> (\<exists>a. spec_suppliedPaths argv = [a] \<and> pathArg options' = Some a)
           else spec_suppliedPaths argv = [] \<and> pathArg options' = pathArg options))"
proof (induction argv arbitrary: options R rule: length_induct)
  case (1 argv)
  note IH = "1.IH" [rule_format]
  show ?case
  proof (cases argv)
    case Nil
    with "1.prems" show ?thesis by auto
  next
    case (Cons arg rest)
    define isPathOpt where "isPathOpt \<longleftrightarrow> arg = ''--path'' \<or> arg = ''-p''"
    have "isFlag arg \<or> (\<not> isFlag arg \<and> isPathOpt) \<or> (\<not> isFlag arg \<and> \<not> isPathOpt)"
      by blast
    then consider (flag) "isFlag arg"
      | (pathopt) "\<not> isFlag arg" "arg = ''--path'' \<or> arg = ''-p''"
      | (other) "\<not> isFlag arg" "\<not> (arg = ''--path'' \<or> arg = ''-p'')"
      unfolding isPathOpt_def by blast
    then show ?thesis
    proof cases
      case flag
      obtain options1 where s: "parseLoop options (arg # rest) = parseLoop options1 rest"
        and p: "pathArg options1 = pathArg options" "projectNameArg options1 = projectNameArg options"
        using parseLoop_flag [OF flag] by blast
      from s "1.prems" Cons have "parseLoop options1 rest = R" by simp
      from IH [OF _ this] Cons show ?thesis
        by (simp add: supplied_flag [OF flag] p)
    next
      case pathopt
      note step = parseLoop_pathopt [OF pathopt(2), of options rest]
      show ?thesis
      proof (cases rest)
        case Nil
        with step "1.prems" Cons show ?thesis by auto
      next
        case (Cons nxt rest')
        note rest = Cons
        show ?thesis
        proof (cases "startsWith ''-'' nxt \<or> length (trim nxt) = 0 \<or> pathArg options \<noteq> None")
          case True
          with step "1.prems" \<open>argv = arg # rest\<close> rest show ?thesis by (auto split: if_splits)
        next
          case False
          with step "1.prems" \<open>argv = arg # rest\<close> rest
          have "parseLoop (options\<lparr>pathArg := Some nxt\<rparr>) rest' = R" by auto
          from IH [OF _ this] \<open>argv = arg # rest\<close> rest False show ?thesis
            by (simp add: supplied_pathopt [OF pathopt(2)])
        qed
      qed
    next
      case other
      note step = parseLoop_other [OF other, of options rest]
      show ?thesis
      proof (cases "startsWith ''--path='' arg \<or> startsWith ''-p='' arg")
        case True
        note sup = supplied_patheq [OF other(2) True, of rest]
        let ?v = "tl (dropWhile (\<lambda>c. c \<noteq> CHR ''='') arg)"
        show ?thesis
        proof (cases "length (trim ?v) = 0 \<or> pathArg options \<noteq> None")
          case bad: True
          with step True "1.prems" Cons show ?thesis by (auto simp: Let_def split: if_splits)
        next
          case good: False
          with step True "1.prems" Cons
          have "parseLoop (options\<lparr>pathArg := Some ?v\<rparr>) rest = R" by (auto simp: Let_def)
          from IH [OF _ this] Cons good show ?thesis
            by (simp add: sup)
        qed
      next
        case False
        note notpatheq = False
        show ?thesis
        proof (cases "startsWith ''-'' arg \<or> projectNameArg options \<noteq> None")
          case True
          with step notpatheq "1.prems" Cons show ?thesis by (auto split: if_splits)
        next
          case False
          then have nd: "\<not> startsWith ''-'' arg" by simp
          note sup = supplied_positional [OF other(2) nd, of rest]
          from False step notpatheq "1.prems" Cons
          have "parseLoop (options\<lparr>projectNameArg := Some arg\<rparr>) rest = R" by auto
          from IH [OF _ this] Cons False show ?thesis
            by (simp add: sup)
        qed
      qed
    qed
  qed
qed

lemma parseArgs_Error: "parseArgs argv = Inl err \<Longrightarrow> \<exists>msg. err = Error msg"
  using parseLoop_inv [OF refl, of initialOptions argv]
  by (auto simp: parseArgs_def split: sum.splits if_splits)

lemma parseArgs_supplied:
  assumes "parseArgs argv = Inr options"
  shows "(spec_suppliedPositionals argv = [] \<and> projectNameArg options = None
            \<or> (\<exists>a. spec_suppliedPositionals argv = [a] \<and> projectNameArg options = Some a))
         \<and> (spec_suppliedPaths argv = [] \<and> pathArg options = None
            \<or> (\<exists>a. spec_suppliedPaths argv = [a] \<and> pathArg options = Some a))
         \<and> (projectNameArg options = None \<or> pathArg options = None)"
proof -
  from assms have l: "parseLoop initialOptions argv = Inr options"
    and x: "projectNameArg options = None \<or> pathArg options = None"
    by (auto simp: parseArgs_def split: sum.splits if_splits)
  have "projectNameArg initialOptions = None" "pathArg initialOptions = None"
    by (simp_all add: initialOptions_def)
  with parseLoop_inv [OF l] x show ?thesis by simp
qed

text \<open>
  C6. The parser never returns options with both a positional project name and a path
  value. An argument list that supplies both, or two positional arguments, or two path
  options, is rejected with an error.
\<close>

theorem parseArgs_exclusive:
  "(\<forall>options. parseArgs argv = Inr options \<longrightarrow> projectNameArg options = None \<or> pathArg options = None)
   \<and> ((spec_suppliedPositionals argv \<noteq> [] \<and> spec_suppliedPaths argv \<noteq> [])
        \<or> length (spec_suppliedPositionals argv) > 1 \<or> length (spec_suppliedPaths argv) > 1
      \<longrightarrow> (\<exists>msg. parseArgs argv = Inl (Error msg)))"
proof (intro conjI allI impI)
  fix options
  assume "parseArgs argv = Inr options"
  from parseArgs_supplied [OF this] show "projectNameArg options = None \<or> pathArg options = None"
    by simp
next
  assume s: "(spec_suppliedPositionals argv \<noteq> [] \<and> spec_suppliedPaths argv \<noteq> [])
        \<or> length (spec_suppliedPositionals argv) > 1 \<or> length (spec_suppliedPaths argv) > 1"
  show "\<exists>msg. parseArgs argv = Inl (Error msg)"
  proof (cases "parseArgs argv")
    case (Inl err)
    with parseArgs_Error [OF Inl] show ?thesis by blast
  next
    case (Inr options)
    from parseArgs_supplied [OF Inr] s show ?thesis by auto
  qed
qed

theorem parseArgs_exclusive_witness:
  "parseArgs [''app'', ''--path'', ''dir''] = Inl (Error ''Use either a project name argument or --path, not both.'')
   \<and> parseArgs [''app'', ''other''] = Inl (Error ''Only one project name can be provided.'')
   \<and> parseArgs [''-p'', ''dir'', ''--path=dir2''] = Inl (Error ''Path can only be provided once.'')
   \<and> (\<exists>msg. parseArgs [''--path=dir'', ''-f'', ''app''] = Inl (Error msg))"
proof -
  have 1: "parseArgs [''app'', ''--path'', ''dir''] = Inl (Error ''Use either a project name argument or --path, not both.'')"
    by code_simp
  have 2: "parseArgs [''app'', ''other''] = Inl (Error ''Only one project name can be provided.'')"
    by code_simp
  have 3: "parseArgs [''-p'', ''dir'', ''--path=dir2''] = Inl (Error ''Path can only be provided once.'')"
    by code_simp
  have "spec_suppliedPositionals [''--path=dir'', ''-f'', ''app''] \<noteq> [] \<and> spec_suppliedPaths [''--path=dir'', ''-f'', ''app''] \<noteq> []"
    by code_simp
  then have "\<exists>msg. parseArgs [''--path=dir'', ''-f'', ''app''] = Inl (Error msg)"
    using parseArgs_exclusive [of "[''--path=dir'', ''-f'', ''app'']", THEN conjunct2] by blast
  with 1 2 3 show ?thesis by (intro conjI)
qed

section \<open>Properties of run\<close>






section \<open>Properties of scaffoldProject\<close>

subsection \<open>The check of the target directory\<close>





subsection \<open>Omitted options\<close>


subsection \<open>What each step adds to the trace\<close>

lemma notables_emit [simp]: "notables (emit ev w) = notables w @ (if notable ev then [ev] else [])"
  by (simp add: notables_def emit_def)

lemma notables_fs [simp]: "notables (w\<lparr>fs := root\<rparr>) = notables w"
  by (simp add: notables_def)

lemma notables_runCommand:
  "notables (snd (runCommand e cmd cwdOpt quietOpt w))
     = notables w @ (if cmd = [''bun'', ''install''] then [Spawn cmd cwdOpt] else [])"
  by (simp add: runCommand_def Let_def split: prod.splits sum.splits)

lemma notables_clone [simp]:
  "notables (snd (cloneTemplateRepo e templateRepo stagingDir w)) = notables w"
proof -
  let ?cmd = "[''git'', ''clone'', ''--depth'', ''1'', ''--quiet'', templateRepo, path_string stagingDir]"
  have "notables (snd (runCommand e ?cmd None (Some True) w)) = notables w"
    by (simp add: notables_runCommand)
  then show ?thesis
    by (auto simp: cloneTemplateRepo_def split: prod.splits sum.splits)
qed

lemma notables_runBunInstall:
  "notables (snd (runBunInstall e dir w)) = notables w @ [Spawn [''bun'', ''install''] (Some dir)]"
proof -
  have "notables (snd (runCommand e [''bun'', ''install''] (Some dir) (Some True) w))
          = notables w @ [Spawn [''bun'', ''install''] (Some dir)]"
    by (simp add: notables_runCommand)
  then show ?thesis
    by (auto simp: runBunInstall_def split: prod.splits sum.splits)
qed

lemma notables_injected: "notables (snd (injected f dir w)) = notables w"
  by (simp add: injected_def split: prod.splits)

lemma notables_bunWrite [simp]: "notables (snd (bunWrite e filePath x w)) = notables w"
  by (simp add: bunWrite_def split: option.splits sum.splits)

lemma notables_rewriteTokens [simp]:
  "notables (snd (rewriteTokens e projectName packageName filePath w)) = notables w"
  by (simp add: rewriteTokens_def Let_def split: sum.splits)

lemma notables_rewriteEach [simp]:
  "notables (snd (rewriteEach e projectName packageName filePaths w)) = notables w"
proof (induction filePaths arbitrary: w)
  case Nil
  then show ?case by simp
next
  case (Cons filePath rest)
  obtain r w1 where 1: "rewriteTokens e projectName packageName filePath w = (r, w1)"
    by (cases "rewriteTokens e projectName packageName filePath w")
  obtain r' w2 where 2: "rewriteEach e projectName packageName rest w1 = (r', w2)"
    by (cases "rewriteEach e projectName packageName rest w1")
  from 1 have "notables w1 = notables w"
    using notables_rewriteTokens [of e projectName packageName filePath w] by simp
  moreover from 2 have "notables w2 = notables w1"
    using Cons.IH [of w1] by simp
  ultimately show ?case using 1 2 by simp
qed

lemma notables_applyTemplateTokens [simp]:
  "notables (snd (applyTemplateTokens e filePaths projectName w)) = notables w"
proof -
  obtain r w1 where 1: "rewriteEach e projectName (normalizePackageName projectName) filePaths w = (r, w1)"
    by (cases "rewriteEach e projectName (normalizePackageName projectName) filePaths w")
  then have "notables w1 = notables w"
    using notables_rewriteEach [of e projectName "normalizePackageName projectName" filePaths w] by simp
  with 1 show ?thesis
    by (simp add: applyTemplateTokens_def Let_def split: option.splits)
qed

end
